theory Spec2Isabelle
  imports Main "HOL-Library.Word"
begin

section \<open>Python values the client works with\<close>

text \<open>
  Exceptions that reach the client's own code. \<open>subprocess.run\<close> raises
  \<open>FileNotFoundError\<close> when the tool is missing, \<open>TimeoutExpired\<close> after the
  5 second bound, and other \<open>OSError\<close>s; comparing an \<open>int\<close> with a value that is
  not a number raises \<open>TypeError\<close>. \<open>KeyboardInterrupt\<close> is not an \<open>Exception\<close>
  and is outside this model.
\<close>

datatype exn = FileNotFoundError | TimeoutExpired | OSError | TypeError

text \<open>
  A value as \<open>json.loads\<close> delivers it into the configuration dictionary. Floats and
  nested containers are not modelled: \<open>run_setup\<close> writes integers and strings only.
\<close>

datatype json = JNull | JBool bool | JInt int | JStr string

type_synonym config = "string \<rightharpoonup> json"

text \<open>\<open>config.get(key, default)\<close>.\<close>

definition dict_get :: "config \<Rightarrow> string \<Rightarrow> json \<Rightarrow> json" where
  "dict_get d k dflt = (case d k of None \<Rightarrow> dflt | Some v \<Rightarrow> v)"

text \<open>
  \<open>idle < active_threshold\<close> for an \<open>int\<close> on the left: \<open>None\<close> stands for the
  \<open>TypeError\<close> Python raises on a string or \<open>None\<close>; a \<open>bool\<close> compares as 0 or 1.
\<close>

fun py_lt :: "int \<Rightarrow> json \<Rightarrow> bool option" where
  "py_lt i (JInt n) = Some (i < n)"
| "py_lt i (JBool b) = Some (i < (if b then 1 else 0))"
| "py_lt i JNull = None"
| "py_lt i (JStr s) = None"

subsection \<open>Text\<close>

text \<open>
  \<open>str.isspace\<close> on one code point, which is also what \<open>str.strip()\<close> removes and what
  \<open>\s\<close> matches in a \<open>str\<close> pattern: the ASCII controls 9-13 and 28-31, the space, and
  the Unicode white space beyond ASCII.
\<close>

definition py_isspace :: "nat \<Rightarrow> bool" where
  "py_isspace c =
     ((9 \<le> c \<and> c \<le> 13) \<or> (28 \<le> c \<and> c \<le> 32) \<or> c = 133 \<or> c = 160 \<or> c = 5760 \<or>
      (8192 \<le> c \<and> c \<le> 8202) \<or> c = 8232 \<or> c = 8233 \<or> c = 8239 \<or> c = 8287 \<or>
      c = 12288)"

text \<open>\<open>s.strip()\<close> with the white-space test as a parameter.\<close>

definition strip_by :: "('a \<Rightarrow> bool) \<Rightarrow> 'a list \<Rightarrow> 'a list" where
  "strip_by p s = rev (dropWhile p (rev (dropWhile p s)))"

text \<open>
  The text a tool prints is a HOL \<open>string\<close>: a list of characters with code points
  0 to 255. On that range the decimal digits (\<open>\d\<close>, and the digits \<open>int()\<close> accepts)
  are \<open>0\<close> to \<open>9\<close>, and \<open>\w\<close> is \<open>str.isalnum\<close> or the underscore.
\<close>

definition is_space :: "char \<Rightarrow> bool" where
  "is_space c = py_isspace (of_char c)"

definition is_decimal :: "char \<Rightarrow> bool" where
  "is_decimal c = (48 \<le> (of_char c :: nat) \<and> (of_char c :: nat) \<le> 57)"

definition is_word :: "char \<Rightarrow> bool" where
  "is_word c =
     (let n = (of_char c :: nat) in
        n = 95 \<or> (48 \<le> n \<and> n \<le> 57) \<or> (65 \<le> n \<and> n \<le> 90) \<or> (97 \<le> n \<and> n \<le> 122) \<or>
        n = 170 \<or> n = 178 \<or> n = 179 \<or> n = 181 \<or> n = 185 \<or> n = 186 \<or>
        (188 \<le> n \<and> n \<le> 190) \<or> (192 \<le> n \<and> n \<le> 214) \<or> (216 \<le> n \<and> n \<le> 246) \<or>
        248 \<le> n)"

definition py_strip :: "string \<Rightarrow> string" where
  "py_strip s = strip_by is_space s"

text \<open>
  \<open>int(s)\<close> in base 10. After the surrounding white space and an optional sign come
  digits, with single underscores allowed between two digits. \<open>None\<close> stands for
  \<open>ValueError\<close>. A positive \<open>maxd\<close> is the interpreter's limit on the number of digits
  (\<open>sys.get_int_max_str_digits()\<close>, 4300 by default where it exists); 0 means no limit.
\<close>

fun int_digits :: "string \<Rightarrow> nat list option" where
  "int_digits [] = None"
| "int_digits [c] = (if is_decimal c then Some [of_char c - 48] else None)"
| "int_digits (c # d # ds) =
     (if \<not> is_decimal c then None
      else if d = CHR ''_'' then map_option ((#) (of_char c - 48)) (int_digits ds)
      else map_option ((#) (of_char c - 48)) (int_digits (d # ds)))"

definition digits_value :: "nat list \<Rightarrow> nat" where
  "digits_value ds = foldl (\<lambda>a d. 10 * a + d) 0 ds"

definition py_int :: "nat \<Rightarrow> string \<Rightarrow> int option" where
  "py_int maxd s =
     (case py_strip s of
        [] \<Rightarrow> None
      | c # r \<Rightarrow>
          (let neg = (c = CHR ''-'');
               body = (if c = CHR ''-'' \<or> c = CHR ''+'' then r else c # r)
           in case int_digits body of
                None \<Rightarrow> None
              | Some ds \<Rightarrow>
                  if 0 < maxd \<and> maxd < length ds then None
                  else Some (if neg then - int (digits_value ds) else int (digits_value ds))))"

text \<open>\<open>sub in s\<close> for strings.\<close>

fun py_in :: "string \<Rightarrow> string \<Rightarrow> bool" where
  "py_in sub [] = (sub = [])"
| "py_in sub (c # cs) = (take (length sub) (c # cs) = sub \<or> py_in sub cs)"

text \<open>
  \<open>re.search(r"Monitor is (\w+)", s)\<close>: the first position where the literal is followed
  by a word character; group 1 is the longest run of word characters there.
\<close>

definition match_monitor :: "string \<Rightarrow> string option" where
  "match_monitor s =
     (if take 11 s = ''Monitor is '' \<and> takeWhile is_word (drop 11 s) \<noteq> []
      then Some (takeWhile is_word (drop 11 s)) else None)"

fun search_monitor :: "string \<Rightarrow> string option" where
  "search_monitor [] = None"
| "search_monitor (c # cs) =
     (case match_monitor (c # cs) of Some g \<Rightarrow> Some g | None \<Rightarrow> search_monitor cs)"

text \<open>
  \<open>re.search(r"uint64\s+(\d+)", s)\<close>: the first position where the literal is followed
  by at least one white-space character and then a digit; group 1 is the longest run of
  digits there.
\<close>

definition match_uint64 :: "string \<Rightarrow> string option" where
  "match_uint64 s =
     (let r = dropWhile is_space (drop 6 s) in
        if take 6 s = ''uint64'' \<and> takeWhile is_space (drop 6 s) \<noteq> [] \<and>
           takeWhile is_decimal r \<noteq> []
        then Some (takeWhile is_decimal r) else None)"

fun search_uint64 :: "string \<Rightarrow> string option" where
  "search_uint64 [] = None"
| "search_uint64 (c # cs) =
     (case match_uint64 (c # cs) of Some g \<Rightarrow> Some g | None \<Rightarrow> search_uint64 cs)"

section \<open>The session and what the client does to it\<close>

text \<open>
  The environment of one wake evaluation: the session type read from
  \<open>XDG_SESSION_TYPE\<close> at start-up, what \<open>subprocess.run\<close> gives for an argument vector
  (\<open>Inl\<close> the exception it raises, \<open>Inr\<close> the captured standard output), and the
  interpreter's digit limit for \<open>int()\<close>.
\<close>

record env =
  SESSION_TYPE :: string
  subprocess_run :: "string list \<Rightarrow> exn + string"
  int_max_str_digits :: nat

text \<open>
  What a handler does, in order: every call of \<open>subprocess.run\<close> with its argument vector,
  and every log record.
\<close>

datatype log_msg =
    ScreenOffWaking int
  | ScreenOnResetting int
  | XsetResetFailed exn
  | XsetForceOnFailed exn
  | DBusResetFailed exn
  | DBusWakeFailed exn

datatype event = Run "string list" | Info log_msg | Warning log_msg

definition xprintidle :: "string list" where
  "xprintidle = [''xprintidle'']"

definition xset_q :: "string list" where
  "xset_q = [''xset'', ''q'']"

definition xset_s_reset :: "string list" where
  "xset_s_reset = [''xset'', ''s'', ''reset'']"

definition xset_dpms_force_on :: "string list" where
  "xset_dpms_force_on = [''xset'', ''dpms'', ''force'', ''on'']"

definition dbus_get_idletime :: "string list" where
  "dbus_get_idletime =
     [''dbus-send'', ''--session'', ''--print-reply'',
      ''--dest=org.gnome.Mutter.IdleMonitor'',
      ''/org/gnome/Mutter/IdleMonitor/Core'',
      ''org.gnome.Mutter.IdleMonitor.GetIdletime'']"

definition dbus_get_active :: "string list" where
  "dbus_get_active =
     [''dbus-send'', ''--session'', ''--print-reply'',
      ''--dest=org.gnome.ScreenSaver'',
      ''/org/gnome/ScreenSaver'',
      ''org.gnome.ScreenSaver.GetActive'']"

definition dbus_simulate_user_activity :: "string list" where
  "dbus_simulate_user_activity =
     [''dbus-send'', ''--session'', ''--type=method_call'',
      ''--dest=org.gnome.ScreenSaver'',
      ''/org/gnome/ScreenSaver'',
      ''org.gnome.ScreenSaver.SimulateUserActivity'']"

definition dbus_set_active_false :: "string list" where
  "dbus_set_active_false =
     [''dbus-send'', ''--session'', ''--type=method_call'',
      ''--dest=org.gnome.ScreenSaver'',
      ''/org/gnome/ScreenSaver'',
      ''org.gnome.ScreenSaver.SetActive'',
      ''boolean:false'']"

subsection \<open>X11 display functions\<close>

definition get_idle_seconds_x11 :: "env \<Rightarrow> int \<times> event list" where
  "get_idle_seconds_x11 env =
     (case subprocess_run env xprintidle of
        Inl e \<Rightarrow> 0
      | Inr out \<Rightarrow>
          (case py_int (int_max_str_digits env) (py_strip out) of
             None \<Rightarrow> 0
           | Some n \<Rightarrow> n div 1000),
      [Run xprintidle])"

definition is_screen_off_x11 :: "env \<Rightarrow> bool \<times> event list" where
  "is_screen_off_x11 env =
     (case subprocess_run env xset_q of
        Inl e \<Rightarrow> False
      | Inr out \<Rightarrow>
          (case search_monitor out of
             Some g \<Rightarrow> g \<noteq> ''On''
           | None \<Rightarrow> False),
      [Run xset_q])"

definition reset_idle_timer_x11 :: "env \<Rightarrow> event list" where
  "reset_idle_timer_x11 env =
     Run xset_s_reset #
     (case subprocess_run env xset_s_reset of
        Inl e \<Rightarrow> [Warning (XsetResetFailed e)]
      | Inr out \<Rightarrow> [])"

definition wake_screen_x11 :: "env \<Rightarrow> event list" where
  "wake_screen_x11 env =
     Run xset_dpms_force_on #
     (case subprocess_run env xset_dpms_force_on of
        Inl e \<Rightarrow> [Warning (XsetForceOnFailed e)]
      | Inr out \<Rightarrow> []) @
     reset_idle_timer_x11 env"

subsection \<open>Wayland/GNOME display functions\<close>

definition get_idle_seconds_wayland :: "env \<Rightarrow> int \<times> event list" where
  "get_idle_seconds_wayland env =
     (case subprocess_run env dbus_get_idletime of
        Inl e \<Rightarrow> 0
      | Inr out \<Rightarrow>
          (case search_uint64 out of
             None \<Rightarrow> 0
           | Some g \<Rightarrow>
               (case py_int (int_max_str_digits env) g of
                  None \<Rightarrow> 0
                | Some n \<Rightarrow> n div 1000)),
      [Run dbus_get_idletime])"

definition is_screen_off_wayland :: "env \<Rightarrow> bool \<times> event list" where
  "is_screen_off_wayland env =
     (case subprocess_run env dbus_get_active of
        Inl e \<Rightarrow> False
      | Inr out \<Rightarrow> py_in ''boolean true'' out,
      [Run dbus_get_active])"

definition reset_idle_timer_wayland :: "env \<Rightarrow> event list" where
  "reset_idle_timer_wayland env =
     Run dbus_simulate_user_activity #
     (case subprocess_run env dbus_simulate_user_activity of
        Inl e \<Rightarrow> [Warning (DBusResetFailed e)]
      | Inr out \<Rightarrow> [])"

definition wake_screen_wayland :: "env \<Rightarrow> event list" where
  "wake_screen_wayland env =
     Run dbus_set_active_false #
     (case subprocess_run env dbus_set_active_false of
        Inl e \<Rightarrow> [Warning (DBusWakeFailed e)]
      | Inr out \<Rightarrow> [])"

subsection \<open>Unified interface\<close>

definition get_idle_seconds :: "env \<Rightarrow> int \<times> event list" where
  "get_idle_seconds env =
     (if SESSION_TYPE env = ''wayland'' then get_idle_seconds_wayland env
      else get_idle_seconds_x11 env)"

definition is_screen_off :: "env \<Rightarrow> bool \<times> event list" where
  "is_screen_off env =
     (if SESSION_TYPE env = ''wayland'' then is_screen_off_wayland env
      else is_screen_off_x11 env)"

definition reset_idle_timer :: "env \<Rightarrow> event list" where
  "reset_idle_timer env =
     (if SESSION_TYPE env = ''wayland'' then reset_idle_timer_wayland env
      else reset_idle_timer_x11 env)"

definition wake_screen :: "env \<Rightarrow> event list" where
  "wake_screen env =
     (if SESSION_TYPE env = ''wayland'' then wake_screen_wayland env
      else wake_screen_x11 env)"

subsection \<open>Wake signal handler\<close>

text \<open>
  \<open>handle_wake\<close> returns what it did and how it ended: \<open>None\<close> for a normal return,
  \<open>Some e\<close> for the exception that left it.
\<close>

definition handle_wake :: "config \<Rightarrow> env \<Rightarrow> event list \<times> exn option" where
  "handle_wake config env =
     (let active_threshold = dict_get config ''active_threshold'' (JInt 30);
          screen_timeout = dict_get config ''screen_timeout'' (JInt 1200);
          idle = fst (get_idle_seconds env);
          t1 = snd (get_idle_seconds env)
      in case py_lt idle active_threshold of
           None \<Rightarrow> (t1, Some TypeError)
         | Some True \<Rightarrow> (t1, None)
         | Some False \<Rightarrow>
             if fst (is_screen_off env)
             then (t1 @ snd (is_screen_off env) @ [Info (ScreenOffWaking idle)] @
                   wake_screen env, None)
             else (t1 @ snd (is_screen_off env) @ [Info (ScreenOnResetting idle)] @
                   reset_idle_timer env, None))"

text \<open>
  The action a trace shows: the display was woken when the force-on command or the
  \<open>SetActive\<close> call was run; otherwise the idle timer was reset when the reset command or
  the \<open>SimulateUserActivity\<close> call was run; otherwise nothing was done to the display.
\<close>

datatype decision = Ignore | ResetIdleTimer | Wake

definition decision_of :: "event list \<Rightarrow> decision" where
  "decision_of t =
     (if Run xset_dpms_force_on \<in> set t \<or> Run dbus_set_active_false \<in> set t then Wake
      else if Run xset_s_reset \<in> set t \<or> Run dbus_simulate_user_activity \<in> set t
      then ResetIdleTimer
      else Ignore)"

text \<open>
  The wake command of the session: what \<open>wake_screen\<close> runs first.
\<close>

definition wake_command :: "env \<Rightarrow> string list" where
  "wake_command env =
     (if SESSION_TYPE env = ''wayland'' then dbus_set_active_false else xset_dpms_force_on)"

text \<open>
  The commands of the two queries of the session: what \<open>get_idle_seconds\<close> and
  \<open>is_screen_off\<close> run.
\<close>

definition idle_query_command :: "env \<Rightarrow> string list" where
  "idle_query_command env =
     (if SESSION_TYPE env = ''wayland'' then dbus_get_idletime else xprintidle)"

definition power_query_command :: "env \<Rightarrow> string list" where
  "power_query_command env =
     (if SESSION_TYPE env = ''wayland'' then dbus_get_active else xset_q)"

text \<open>
  The state token as the specification words it: the word that follows the first
  \<open>Monitor is\<close> after which a word character stands, taken to its full length.
\<close>

definition monitor_token :: "string \<Rightarrow> string \<Rightarrow> bool" where
  "monitor_token out g \<longleftrightarrow>
     (\<exists>pre post.
        out = pre @ ''Monitor is '' @ g @ post \<and> g \<noteq> [] \<and> list_all is_word g \<and>
        (post = [] \<or> \<not> is_word (hd post)) \<and>
        (\<forall>pre' c post'.
           out = pre' @ ''Monitor is '' @ c # post' \<and> is_word c \<longrightarrow>
           length pre \<le> length pre'))"

text \<open>
  The three-tier policy as section 4.2 of the specification words it, to compare the
  handler with.
\<close>

definition policy_spec :: "int \<Rightarrow> int \<Rightarrow> bool \<Rightarrow> decision" where
  "policy_spec active_threshold idleSeconds screenOff =
     (if idleSeconds < active_threshold then Ignore
      else if screenOff then Wake
      else ResetIdleTimer)"

subsection \<open>MQTT callbacks\<close>

text \<open>
  A decoded payload is a Python \<open>str\<close>: a list of Unicode code points. \<open>py_str\<close> is a
  literal of the source as such a list, \<open>ascii\<close> the bytes of a text on the wire.
\<close>

definition py_str :: "string \<Rightarrow> nat list" where
  "py_str s = map of_char s"

definition ascii :: "string \<Rightarrow> 8 word list" where
  "ascii s = map of_char s"

text \<open>
  \<open>bytes.decode("utf-8", errors="replace")\<close> on the values of the bytes. A byte below
  128 is its own code point. An invalid start byte (128 to 193, 245 and above) gives
  U+FFFD. After a start byte, the longest prefix that can still begin a well-formed
  sequence is consumed: when a continuation byte is missing or out of range (overlong
  forms, surrogates, code points above U+10FFFF), the bytes before it give one U+FFFD and
  decoding goes on at the offending byte; input that ends inside a sequence gives one
  U+FFFD.
\<close>

definition is_continuation :: "nat \<Rightarrow> bool" where
  "is_continuation b = (128 \<le> b \<and> b < 192)"

fun utf8_decode_replace :: "nat list \<Rightarrow> nat list" where
  "utf8_decode_replace [] = []"
| "utf8_decode_replace (b # bs) =
     (if b < 128 then b # utf8_decode_replace bs
      else if b < 194 then 65533 # utf8_decode_replace bs
      else if b < 224 then
        (case bs of
           [] \<Rightarrow> [65533]
         | b2 # r2 \<Rightarrow>
             if is_continuation b2
             then ((b - 192) * 64 + (b2 - 128)) # utf8_decode_replace r2
             else 65533 # utf8_decode_replace bs)
      else if b < 240 then
        (case bs of
           [] \<Rightarrow> [65533]
         | b2 # r2 \<Rightarrow>
             if is_continuation b2 \<and> (if b2 < 160 then b \<noteq> 224 else b \<noteq> 237)
             then (case r2 of
                     [] \<Rightarrow> [65533]
                   | b3 # r3 \<Rightarrow>
                       if is_continuation b3
                       then ((b - 224) * 4096 + (b2 - 128) * 64 + (b3 - 128)) #
                            utf8_decode_replace r3
                       else 65533 # utf8_decode_replace r2)
             else 65533 # utf8_decode_replace bs)
      else if b < 245 then
        (case bs of
           [] \<Rightarrow> [65533]
         | b2 # r2 \<Rightarrow>
             if is_continuation b2 \<and> (if b2 < 144 then b \<noteq> 240 else b \<noteq> 244)
             then (case r2 of
                     [] \<Rightarrow> [65533]
                   | b3 # r3 \<Rightarrow>
                       if is_continuation b3
                       then (case r3 of
                               [] \<Rightarrow> [65533]
                             | b4 # r4 \<Rightarrow>
                                 if is_continuation b4
                                 then ((b - 240) * 262144 + (b2 - 128) * 4096 +
                                       (b3 - 128) * 64 + (b4 - 128)) #
                                      utf8_decode_replace r4
                                 else 65533 # utf8_decode_replace r3)
                       else 65533 # utf8_decode_replace r2)
             else 65533 # utf8_decode_replace bs)
      else 65533 # utf8_decode_replace bs)"

text \<open>
  \<open>on_message\<close>, with the module-level \<open>_config\<close> and the session as arguments and
  \<open>msg.payload\<close> as bytes.
\<close>

definition on_message :: "config \<Rightarrow> env \<Rightarrow> 8 word list \<Rightarrow> event list \<times> exn option" where
  "on_message config env msg_payload =
     (let payload = strip_by py_isspace (utf8_decode_replace (map unat msg_payload))
      in if payload = py_str ''wake'' then handle_wake config env else ([], None))"

subsection \<open>Concrete sessions\<close>

text \<open>
  An X11 session whose \<open>xprintidle\<close> and \<open>xset q\<close> print the given texts, every other
  command succeeding silently.
\<close>

definition env_x11 :: "string \<Rightarrow> string \<Rightarrow> env" where
  "env_x11 idle_out power_out =
     \<lparr> SESSION_TYPE = ''x11'',
       subprocess_run = (\<lambda>argv. if argv = xprintidle then Inr idle_out
                                else if argv = xset_q then Inr power_out
                                else Inr []),
       int_max_str_digits = 4300 \<rparr>"

text \<open>
  A GNOME/Wayland session whose idle-monitor and screen-saver calls print the given
  replies, every other command succeeding silently.
\<close>

definition env_wayland :: "string \<Rightarrow> string \<Rightarrow> env" where
  "env_wayland idle_reply active_reply =
     \<lparr> SESSION_TYPE = ''wayland'',
       subprocess_run = (\<lambda>argv. if argv = dbus_get_idletime then Inr idle_reply
                                else if argv = dbus_get_active then Inr active_reply
                                else Inr []),
       int_max_str_digits = 4300 \<rparr>"

text \<open>A session of the given type in which every tool is missing.\<close>

definition env_down :: "string \<Rightarrow> env" where
  "env_down session =
     \<lparr> SESSION_TYPE = session,
       subprocess_run = (\<lambda>argv. Inl FileNotFoundError),
       int_max_str_digits = 4300 \<rparr>"

section \<open>Properties of the wake handler\<close>

lemmas argv_defs =
  xprintidle_def xset_q_def xset_s_reset_def xset_dpms_force_on_def
  dbus_get_idletime_def dbus_get_active_def dbus_simulate_user_activity_def
  dbus_set_active_false_def

lemmas text_eval =
  py_int_def py_strip_def strip_by_def is_space_def py_isspace_def is_decimal_def
  digits_value_def match_monitor_def is_word_def Let_def

lemmas x11_eval =
  env_x11_def get_idle_seconds_def get_idle_seconds_x11_def is_screen_off_def
  is_screen_off_x11_def reset_idle_timer_def reset_idle_timer_x11_def wake_screen_def
  wake_screen_x11_def argv_defs

lemma snd_get_idle_seconds:
  "snd (get_idle_seconds env) =
     [Run (if SESSION_TYPE env = ''wayland'' then dbus_get_idletime else xprintidle)]"
  by (simp add: get_idle_seconds_def get_idle_seconds_wayland_def get_idle_seconds_x11_def)

lemma snd_is_screen_off:
  "snd (is_screen_off env) =
     [Run (if SESSION_TYPE env = ''wayland'' then dbus_get_active else xset_q)]"
  by (simp add: is_screen_off_def is_screen_off_wayland_def is_screen_off_x11_def)

lemma idle_query_not_in_reset:
  "Run dbus_get_idletime \<notin> set (reset_idle_timer env)" "Run xprintidle \<notin> set (reset_idle_timer env)"
  by (auto simp: reset_idle_timer_def reset_idle_timer_wayland_def reset_idle_timer_x11_def
      argv_defs split: sum.splits)

lemma idle_query_not_in_wake:
  "Run dbus_get_idletime \<notin> set (wake_screen env)" "Run xprintidle \<notin> set (wake_screen env)"
  by (auto simp: wake_screen_def wake_screen_wayland_def wake_screen_x11_def
      reset_idle_timer_x11_def argv_defs split: sum.splits)

lemma idle_query_not_power_query:
  "Run dbus_get_idletime \<notin> set (snd (is_screen_off env))" "Run xprintidle \<notin> set (snd (is_screen_off env))"
  by (auto simp: snd_is_screen_off argv_defs)

lemma decision_of_idle_query: "decision_of (snd (get_idle_seconds env)) = Ignore"
  by (simp add: snd_get_idle_seconds decision_of_def argv_defs)

text \<open>
  C1. While the idle time is below the configured (or default) integer threshold,
  \<open>handle_wake\<close> returns after the idle query alone, whatever the screen's power state
  is: the trace is that one query, no event of the power query, of the wake or of the
  idle-timer reset occurs in it, and the action it shows is \<open>Ignore\<close>.
\<close>

theorem active_tier_ignores:
  assumes "dict_get config ''active_threshold'' (JInt 30) = JInt th"
    and "fst (get_idle_seconds env) < th"
  shows "handle_wake config env = (snd (get_idle_seconds env), None) \<and>
         decision_of (fst (handle_wake config env)) = Ignore \<and>
         length (fst (handle_wake config env)) = 1 \<and>
         set (fst (handle_wake config env)) \<inter>
           (set (snd (is_screen_off env)) \<union> set (wake_screen env) \<union>
            set (reset_idle_timer env)) = {}"
proof -
  have hw: "handle_wake config env = (snd (get_idle_seconds env), None)"
    using assms by (simp add: handle_wake_def Let_def)
  have "set (snd (get_idle_seconds env)) \<inter>
          (set (snd (is_screen_off env)) \<union> set (wake_screen env) \<union>
           set (reset_idle_timer env)) = {}"
    using idle_query_not_in_reset [of env] idle_query_not_in_wake [of env]
      idle_query_not_power_query [of env]
    by (simp add: snd_get_idle_seconds)
  then show ?thesis
    by (simp add: hw decision_of_idle_query) (simp add: snd_get_idle_seconds)
qed

theorem active_tier_ignores_witness:
  "handle_wake [''active_threshold'' \<mapsto> JInt 30] (env_x11 ''10000'' ''Monitor is Off'') =
     ([Run xprintidle], None) \<and>
   decision_of (fst (handle_wake [''active_threshold'' \<mapsto> JInt 30]
     (env_x11 ''10000'' ''Monitor is Off''))) = Ignore"
proof -
  have h1: "dict_get [''active_threshold'' \<mapsto> JInt 30] ''active_threshold'' (JInt 30) = JInt 30"
    by (simp add: dict_get_def)
  have h2: "fst (get_idle_seconds (env_x11 ''10000'' ''Monitor is Off'')) < 30"
    by (simp add: x11_eval text_eval)
  have t: "snd (get_idle_seconds (env_x11 ''10000'' ''Monitor is Off'')) = [Run xprintidle]"
    by (simp add: snd_get_idle_seconds env_x11_def)
  from active_tier_ignores [OF h1 h2]
  have "handle_wake [''active_threshold'' \<mapsto> JInt 30] (env_x11 ''10000'' ''Monitor is Off'') =
          (snd (get_idle_seconds (env_x11 ''10000'' ''Monitor is Off'')), None)"
    and "decision_of (fst (handle_wake [''active_threshold'' \<mapsto> JInt 30]
          (env_x11 ''10000'' ''Monitor is Off''))) = Ignore"
    by blast+
  then show ?thesis
    by (simp only: t simp_thms)
qed

lemma handle_wake_int_threshold:
  assumes "dict_get config ''active_threshold'' (JInt 30) = JInt th"
  shows "handle_wake config env =
     (if fst (get_idle_seconds env) < th then (snd (get_idle_seconds env), None)
      else if fst (is_screen_off env)
      then (snd (get_idle_seconds env) @ snd (is_screen_off env) @
            [Info (ScreenOffWaking (fst (get_idle_seconds env)))] @ wake_screen env, None)
      else (snd (get_idle_seconds env) @ snd (is_screen_off env) @
            [Info (ScreenOnResetting (fst (get_idle_seconds env)))] @
            reset_idle_timer env, None))"
  using assms by (simp add: handle_wake_def Let_def)

lemma wake_command_in_wake_screen: "Run (wake_command env) \<in> set (wake_screen env)"
  by (simp add: wake_command_def wake_screen_def wake_screen_wayland_def wake_screen_x11_def)

lemma decision_of_wake_branch:
  "decision_of (t1 @ t2 @ Info m # wake_screen env) = Wake"
  using wake_command_in_wake_screen [of env]
  by (auto simp: decision_of_def wake_command_def split: if_splits)

lemma wake_not_in_reset:
  "Run xset_dpms_force_on \<notin> set (reset_idle_timer env)"
  "Run dbus_set_active_false \<notin> set (reset_idle_timer env)"
  by (auto simp: reset_idle_timer_def reset_idle_timer_wayland_def reset_idle_timer_x11_def
      argv_defs split: sum.splits)

lemma wake_not_in_queries:
  "Run xset_dpms_force_on \<notin> set (snd (get_idle_seconds env))"
  "Run dbus_set_active_false \<notin> set (snd (get_idle_seconds env))"
  "Run xset_dpms_force_on \<notin> set (snd (is_screen_off env))"
  "Run dbus_set_active_false \<notin> set (snd (is_screen_off env))"
  by (auto simp: snd_get_idle_seconds snd_is_screen_off argv_defs)

lemma reset_in_reset_idle_timer:
  "Run xset_s_reset \<in> set (reset_idle_timer env) \<or>
   Run dbus_simulate_user_activity \<in> set (reset_idle_timer env)"
  by (simp add: reset_idle_timer_def reset_idle_timer_wayland_def reset_idle_timer_x11_def)

lemma decision_of_reset_branch:
  "decision_of (snd (get_idle_seconds env) @ snd (is_screen_off env) @ Info m #
                reset_idle_timer env) = ResetIdleTimer"
  using wake_not_in_reset [of env] wake_not_in_queries [of env] reset_in_reset_idle_timer [of env]
  by (auto simp: decision_of_def)

text \<open>
  C2. When the idle time has reached the threshold and the power query reports the
  screen off, \<open>handle_wake\<close> runs the idle query, the power query, logs, and then runs
  \<open>wake_screen\<close>: the wake command of the session is in the trace and the action is
  \<open>Wake\<close>.
\<close>

theorem screen_off_wakes:
  assumes "dict_get config ''active_threshold'' (JInt 30) = JInt th"
    and "th \<le> fst (get_idle_seconds env)"
    and "fst (is_screen_off env)"
  shows "handle_wake config env =
           (snd (get_idle_seconds env) @ snd (is_screen_off env) @
            [Info (ScreenOffWaking (fst (get_idle_seconds env)))] @ wake_screen env, None) \<and>
         decision_of (fst (handle_wake config env)) = Wake \<and>
         Run (wake_command env) \<in> set (fst (handle_wake config env))"
  using assms wake_command_in_wake_screen [of env]
  by (simp add: handle_wake_int_threshold [OF assms(1)] decision_of_wake_branch)

theorem screen_off_wakes_witness:
  "handle_wake [''active_threshold'' \<mapsto> JInt 30] (env_x11 ''45000'' ''Monitor is Off'') =
     ([Run xprintidle, Run xset_q, Info (ScreenOffWaking 45), Run xset_dpms_force_on,
       Run xset_s_reset], None) \<and>
   decision_of (fst (handle_wake [''active_threshold'' \<mapsto> JInt 30]
     (env_x11 ''45000'' ''Monitor is Off''))) = Wake"
proof -
  have h1: "dict_get [''active_threshold'' \<mapsto> JInt 30] ''active_threshold'' (JInt 30) = JInt 30"
    by (simp add: dict_get_def)
  have h2: "fst (get_idle_seconds (env_x11 ''45000'' ''Monitor is Off'')) = 45"
    by (simp add: x11_eval text_eval)
  have h3: "fst (is_screen_off (env_x11 ''45000'' ''Monitor is Off''))"
    by (simp add: x11_eval text_eval)
  have h4: "wake_screen (env_x11 ''45000'' ''Monitor is Off'') =
              [Run xset_dpms_force_on, Run xset_s_reset]"
    by (simp add: x11_eval)
  have h5: "(30::int) \<le> fst (get_idle_seconds (env_x11 ''45000'' ''Monitor is Off''))"
    by (simp add: h2)
  have t: "snd (get_idle_seconds (env_x11 ''45000'' ''Monitor is Off'')) = [Run xprintidle]"
    "snd (is_screen_off (env_x11 ''45000'' ''Monitor is Off'')) = [Run xset_q]"
    by (simp_all add: snd_get_idle_seconds snd_is_screen_off env_x11_def)
  from screen_off_wakes [OF h1 h5 h3]
  have "handle_wake [''active_threshold'' \<mapsto> JInt 30] (env_x11 ''45000'' ''Monitor is Off'') =
          (snd (get_idle_seconds (env_x11 ''45000'' ''Monitor is Off'')) @
           snd (is_screen_off (env_x11 ''45000'' ''Monitor is Off'')) @
           [Info (ScreenOffWaking (fst (get_idle_seconds (env_x11 ''45000'' ''Monitor is Off''))))] @
           wake_screen (env_x11 ''45000'' ''Monitor is Off''), None)"
    and "decision_of (fst (handle_wake [''active_threshold'' \<mapsto> JInt 30]
          (env_x11 ''45000'' ''Monitor is Off''))) = Wake"
    by blast+
  then show ?thesis
    by (simp only: t h2 h4 append.simps simp_thms)
qed

text \<open>
  C3. When the idle time has reached the threshold and the power query reports the
  screen on, \<open>handle_wake\<close> runs the two queries, logs, and then runs
  \<open>reset_idle_timer\<close>: the action is \<open>ResetIdleTimer\<close>, and neither wake command
  occurs in the trace.
\<close>

theorem idle_but_lit_resets:
  assumes "dict_get config ''active_threshold'' (JInt 30) = JInt th"
    and "th \<le> fst (get_idle_seconds env)"
    and "\<not> fst (is_screen_off env)"
  shows "handle_wake config env =
           (snd (get_idle_seconds env) @ snd (is_screen_off env) @
            [Info (ScreenOnResetting (fst (get_idle_seconds env)))] @
            reset_idle_timer env, None) \<and>
         decision_of (fst (handle_wake config env)) = ResetIdleTimer \<and>
         Run xset_dpms_force_on \<notin> set (fst (handle_wake config env)) \<and>
         Run dbus_set_active_false \<notin> set (fst (handle_wake config env))"
  using assms wake_not_in_reset [of env] wake_not_in_queries [of env]
  by (simp add: handle_wake_int_threshold [OF assms(1)] decision_of_reset_branch)

theorem idle_but_lit_resets_witness:
  "handle_wake [''active_threshold'' \<mapsto> JInt 30] (env_x11 ''45000'' ''Monitor is On'') =
     ([Run xprintidle, Run xset_q, Info (ScreenOnResetting 45), Run xset_s_reset], None) \<and>
   decision_of (fst (handle_wake [''active_threshold'' \<mapsto> JInt 30]
     (env_x11 ''45000'' ''Monitor is On''))) = ResetIdleTimer"
proof -
  have h1: "dict_get [''active_threshold'' \<mapsto> JInt 30] ''active_threshold'' (JInt 30) = JInt 30"
    by (simp add: dict_get_def)
  have h2: "fst (get_idle_seconds (env_x11 ''45000'' ''Monitor is On'')) = 45"
    by (simp add: x11_eval text_eval)
  have h3: "\<not> fst (is_screen_off (env_x11 ''45000'' ''Monitor is On''))"
    by (simp add: x11_eval text_eval)
  have h4: "reset_idle_timer (env_x11 ''45000'' ''Monitor is On'') = [Run xset_s_reset]"
    by (simp add: x11_eval)
  have h5: "(30::int) \<le> fst (get_idle_seconds (env_x11 ''45000'' ''Monitor is On''))"
    by (simp add: h2)
  have t: "snd (get_idle_seconds (env_x11 ''45000'' ''Monitor is On'')) = [Run xprintidle]"
    "snd (is_screen_off (env_x11 ''45000'' ''Monitor is On'')) = [Run xset_q]"
    by (simp_all add: snd_get_idle_seconds snd_is_screen_off env_x11_def)
  from idle_but_lit_resets [OF h1 h5 h3]
  have "handle_wake [''active_threshold'' \<mapsto> JInt 30] (env_x11 ''45000'' ''Monitor is On'') =
          (snd (get_idle_seconds (env_x11 ''45000'' ''Monitor is On'')) @
           snd (is_screen_off (env_x11 ''45000'' ''Monitor is On'')) @
           [Info (ScreenOnResetting (fst (get_idle_seconds (env_x11 ''45000'' ''Monitor is On''))))] @
           reset_idle_timer (env_x11 ''45000'' ''Monitor is On''), None)"
    and "decision_of (fst (handle_wake [''active_threshold'' \<mapsto> JInt 30]
          (env_x11 ''45000'' ''Monitor is On''))) = ResetIdleTimer"
    by blast+
  then show ?thesis
    by (simp only: t h2 h4 append.simps simp_thms)
qed

text \<open>
  C4. At the boundary, where the idle time equals the threshold, the comparison
  is strict: the handler does not stop after the idle query, the action is never
  \<open>Ignore\<close>, and it is \<open>Wake\<close> or \<open>ResetIdleTimer\<close> according to the power query.
  The witness is the specification's example: threshold 30, idle 30 s, screen on.
\<close>

theorem boundary_falls_through:
  assumes "dict_get config ''active_threshold'' (JInt 30) = JInt th"
    and "fst (get_idle_seconds env) = th"
  shows "decision_of (fst (handle_wake config env)) =
           (if fst (is_screen_off env) then Wake else ResetIdleTimer) \<and>
         decision_of (fst (handle_wake config env)) \<noteq> Ignore \<and>
         handle_wake config env \<noteq> (snd (get_idle_seconds env), None)"
  using assms
  by (simp add: handle_wake_int_threshold [OF assms(1)] decision_of_reset_branch
      decision_of_wake_branch)

theorem boundary_falls_through_witness:
  "decision_of (fst (handle_wake [''active_threshold'' \<mapsto> JInt 30]
     (env_x11 ''30000'' ''Monitor is On''))) = ResetIdleTimer"
proof -
  have h1: "dict_get [''active_threshold'' \<mapsto> JInt 30] ''active_threshold'' (JInt 30) = JInt 30"
    by (simp add: dict_get_def)
  have h2: "fst (get_idle_seconds (env_x11 ''30000'' ''Monitor is On'')) = 30"
    by (simp add: x11_eval text_eval)
  have h3: "\<not> fst (is_screen_off (env_x11 ''30000'' ''Monitor is On''))"
    by (simp add: x11_eval text_eval)
  from boundary_falls_through [OF h1 h2]
  have "decision_of (fst (handle_wake [''active_threshold'' \<mapsto> JInt 30]
          (env_x11 ''30000'' ''Monitor is On''))) =
        (if fst (is_screen_off (env_x11 ''30000'' ''Monitor is On'')) then Wake
         else ResetIdleTimer)"
    by blast
  then show ?thesis
    by (simp only: h3 if_False)
qed

text \<open>
  C7. Two configurations that agree on every key but \<open>screen_timeout\<close> make
  \<open>handle_wake\<close> do the same, with the same outcome, in every environment.
\<close>

theorem screen_timeout_not_used:
  assumes "\<forall>k. k \<noteq> ''screen_timeout'' \<longrightarrow> config1 k = config2 k"
  shows "handle_wake config1 env = handle_wake config2 env"
proof -
  have "config1 ''active_threshold'' = config2 ''active_threshold''"
    using assms by simp
  then show ?thesis
    by (simp add: handle_wake_def dict_get_def Let_def)
qed

theorem screen_timeout_not_used_witness:
  "handle_wake [''active_threshold'' \<mapsto> JInt 30, ''screen_timeout'' \<mapsto> JInt 1200]
     (env_x11 ''45000'' ''Monitor is Off'') =
   handle_wake [''active_threshold'' \<mapsto> JInt 30, ''screen_timeout'' \<mapsto> JInt 5]
     (env_x11 ''45000'' ''Monitor is Off'')"
proof -
  have h: "\<forall>k. k \<noteq> ''screen_timeout'' \<longrightarrow>
             [''active_threshold'' \<mapsto> JInt 30, ''screen_timeout'' \<mapsto> JInt 1200] k =
             [''active_threshold'' \<mapsto> JInt 30, ''screen_timeout'' \<mapsto> JInt 5] k"
    by simp
  show ?thesis
    by (rule screen_timeout_not_used [OF h])
qed

text \<open>
  C10. A configuration without the key \<open>active_threshold\<close> is handled as if
  the key held 30: the handler returns normally, does what it does under the
  configuration with 30 stored, and the action is the one the three-tier policy of the
  specification gives for threshold 30. When \<open>screen_timeout\<close> is absent too, storing 1200
  there changes nothing.
\<close>

theorem missing_keys_default:
  assumes "config ''active_threshold'' = None"
  shows "handle_wake config env = handle_wake (config(''active_threshold'' \<mapsto> JInt 30)) env \<and>
         snd (handle_wake config env) = None \<and>
         decision_of (fst (handle_wake config env)) =
           policy_spec 30 (fst (get_idle_seconds env)) (fst (is_screen_off env)) \<and>
         (config ''screen_timeout'' = None \<longrightarrow>
            handle_wake config env = handle_wake (config(''screen_timeout'' \<mapsto> JInt 1200)) env)"
proof -
  have d: "dict_get config ''active_threshold'' (JInt 30) = JInt 30"
    using assms by (simp add: dict_get_def)
  have d': "dict_get (config(''active_threshold'' \<mapsto> JInt 30)) ''active_threshold'' (JInt 30) = JInt 30"
    by (simp add: dict_get_def)
  have a: "handle_wake config env = handle_wake (config(''active_threshold'' \<mapsto> JInt 30)) env"
    by (simp only: handle_wake_int_threshold [OF d] handle_wake_int_threshold [OF d'])
  have b: "snd (handle_wake config env) = None"
    by (simp add: handle_wake_int_threshold [OF d])
  have c: "decision_of (fst (handle_wake config env)) =
           policy_spec 30 (fst (get_idle_seconds env)) (fst (is_screen_off env))"
    by (simp add: handle_wake_int_threshold [OF d] policy_spec_def decision_of_idle_query
        decision_of_wake_branch decision_of_reset_branch)
  have e: "handle_wake config env = handle_wake (config(''screen_timeout'' \<mapsto> JInt 1200)) env"
    by (simp add: handle_wake_def dict_get_def Let_def)
  show ?thesis using a b c e by simp
qed

theorem missing_keys_default_witness:
  "handle_wake Map.empty (env_x11 ''29999'' ''Monitor is Off'') =
     handle_wake [''active_threshold'' \<mapsto> JInt 30] (env_x11 ''29999'' ''Monitor is Off'') \<and>
   snd (handle_wake Map.empty (env_x11 ''29999'' ''Monitor is Off'')) = None \<and>
   decision_of (fst (handle_wake Map.empty (env_x11 ''29999'' ''Monitor is Off''))) = Ignore \<and>
   handle_wake Map.empty (env_x11 ''29999'' ''Monitor is Off'') =
     handle_wake [''screen_timeout'' \<mapsto> JInt 1200] (env_x11 ''29999'' ''Monitor is Off'')"
proof -
  have h1: "(Map.empty :: config) ''active_threshold'' = None"
    by simp
  have h2: "fst (get_idle_seconds (env_x11 ''29999'' ''Monitor is Off'')) = 29"
    by (simp add: x11_eval text_eval)
  have h3: "(Map.empty :: config) ''screen_timeout'' = None"
    by simp
  have p: "policy_spec 30 29 (fst (is_screen_off (env_x11 ''29999'' ''Monitor is Off''))) = Ignore"
    by (simp add: policy_spec_def)
  note r = missing_keys_default [OF h1, of "env_x11 ''29999'' ''Monitor is Off''", unfolded h2 p]
  show ?thesis
    using r h3 by blast
qed

section \<open>Properties of the display queries\<close>

lemma handle_wake_cases:
  "handle_wake config env =
     (case py_lt (fst (get_idle_seconds env)) (dict_get config ''active_threshold'' (JInt 30)) of
        None \<Rightarrow> (snd (get_idle_seconds env), Some TypeError)
      | Some True \<Rightarrow> (snd (get_idle_seconds env), None)
      | Some False \<Rightarrow>
          if fst (is_screen_off env)
          then (snd (get_idle_seconds env) @ snd (is_screen_off env) @
                Info (ScreenOffWaking (fst (get_idle_seconds env))) # wake_screen env, None)
          else (snd (get_idle_seconds env) @ snd (is_screen_off env) @
                Info (ScreenOnResetting (fst (get_idle_seconds env))) #
                reset_idle_timer env, None))"
  by (simp add: handle_wake_def Let_def split: option.split bool.split)

lemma not_wake_when_screen_on:
  assumes "\<not> fst (is_screen_off env)"
  shows "decision_of (fst (handle_wake config env)) \<noteq> Wake"
  using assms
  by (simp add: handle_wake_cases decision_of_idle_query decision_of_reset_branch
      split: option.split bool.split)

lemma idle_failure_zero:
  assumes "subprocess_run env (idle_query_command env) = Inl e"
  shows "fst (get_idle_seconds env) = 0"
  using assms
  by (simp add: idle_query_command_def get_idle_seconds_def get_idle_seconds_x11_def
      get_idle_seconds_wayland_def split: if_splits)

lemma power_failure_on:
  assumes "subprocess_run env (power_query_command env) = Inl e"
  shows "\<not> fst (is_screen_off env)"
  using assms
  by (simp add: power_query_command_def is_screen_off_def is_screen_off_x11_def
      is_screen_off_wayland_def split: if_splits)

text \<open>
  C6. When the tool behind a query fails (\<open>subprocess.run\<close> raises), or prints what
  cannot be parsed, the idle query gives 0 and the power query gives \<open>False\<close>, in the
  X11 and in the Wayland variant. A failed power query never ends in a wake. A failed
  idle query makes the handler act as at idle time 0: with a positive threshold it
  returns after the idle query and the action is \<open>Ignore\<close>; with a threshold of 0 or
  less the action is the one every non-negative idle time gives, so the failure does
  not decide it.
\<close>

theorem query_failure_degrades:
  "(subprocess_run env xprintidle = Inl e \<longrightarrow> fst (get_idle_seconds_x11 env) = 0) \<and>
   (subprocess_run env dbus_get_idletime = Inl e \<longrightarrow> fst (get_idle_seconds_wayland env) = 0) \<and>
   (subprocess_run env xset_q = Inl e \<longrightarrow> \<not> fst (is_screen_off_x11 env)) \<and>
   (subprocess_run env dbus_get_active = Inl e \<longrightarrow> \<not> fst (is_screen_off_wayland env)) \<and>
   (subprocess_run env xprintidle = Inr out \<and>
    py_int (int_max_str_digits env) (py_strip out) = None \<longrightarrow>
      fst (get_idle_seconds_x11 env) = 0) \<and>
   (subprocess_run env dbus_get_idletime = Inr out \<and> search_uint64 out = None \<longrightarrow>
      fst (get_idle_seconds_wayland env) = 0) \<and>
   (subprocess_run env xset_q = Inr out \<and> search_monitor out = None \<longrightarrow>
      \<not> fst (is_screen_off_x11 env)) \<and>
   (subprocess_run env (power_query_command env) = Inl e \<longrightarrow>
      decision_of (fst (handle_wake config env)) \<noteq> Wake) \<and>
   (subprocess_run env (idle_query_command env) = Inl e \<and>
    dict_get config ''active_threshold'' (JInt 30) = JInt th \<longrightarrow>
      decision_of (fst (handle_wake config env)) = policy_spec th 0 (fst (is_screen_off env)) \<and>
      (0 < th \<longrightarrow> handle_wake config env = (snd (get_idle_seconds env), None) \<and>
                  decision_of (fst (handle_wake config env)) = Ignore) \<and>
      (th \<le> 0 \<longrightarrow> (\<forall>i\<ge>0. policy_spec th i (fst (is_screen_off env)) =
                               policy_spec th 0 (fst (is_screen_off env)))))"
proof -
  have a: "subprocess_run env xprintidle = Inl e \<longrightarrow> fst (get_idle_seconds_x11 env) = 0"
    by (simp add: get_idle_seconds_x11_def)
  have b: "subprocess_run env dbus_get_idletime = Inl e \<longrightarrow> fst (get_idle_seconds_wayland env) = 0"
    by (simp add: get_idle_seconds_wayland_def)
  have c: "subprocess_run env xset_q = Inl e \<longrightarrow> \<not> fst (is_screen_off_x11 env)"
    by (simp add: is_screen_off_x11_def)
  have d: "subprocess_run env dbus_get_active = Inl e \<longrightarrow> \<not> fst (is_screen_off_wayland env)"
    by (simp add: is_screen_off_wayland_def)
  have u1: "subprocess_run env xprintidle = Inr out \<and>
    py_int (int_max_str_digits env) (py_strip out) = None \<longrightarrow>
      fst (get_idle_seconds_x11 env) = 0"
    by (simp add: get_idle_seconds_x11_def)
  have u2: "subprocess_run env dbus_get_idletime = Inr out \<and> search_uint64 out = None \<longrightarrow>
      fst (get_idle_seconds_wayland env) = 0"
    by (simp add: get_idle_seconds_wayland_def)
  have u3: "subprocess_run env xset_q = Inr out \<and> search_monitor out = None \<longrightarrow>
      \<not> fst (is_screen_off_x11 env)"
    by (simp add: is_screen_off_x11_def)
  have f: "subprocess_run env (power_query_command env) = Inl e \<longrightarrow>
      decision_of (fst (handle_wake config env)) \<noteq> Wake"
    using power_failure_on not_wake_when_screen_on by blast
  have g: "decision_of (fst (handle_wake config env)) = policy_spec th 0 (fst (is_screen_off env)) \<and>
      (0 < th \<longrightarrow> handle_wake config env = (snd (get_idle_seconds env), None) \<and>
                  decision_of (fst (handle_wake config env)) = Ignore) \<and>
      (th \<le> 0 \<longrightarrow> (\<forall>i\<ge>0. policy_spec th i (fst (is_screen_off env)) =
                               policy_spec th 0 (fst (is_screen_off env))))"
    if h: "subprocess_run env (idle_query_command env) = Inl e"
      "dict_get config ''active_threshold'' (JInt 30) = JInt th"
  proof -
    have z: "fst (get_idle_seconds env) = 0"
      using h(1) by (rule idle_failure_zero)
    show ?thesis
      by (simp add: handle_wake_int_threshold [OF h(2)] z policy_spec_def
          decision_of_idle_query decision_of_wake_branch decision_of_reset_branch)
  qed
  show ?thesis
    using a b c d u1 u2 u3 f g by blast
qed

theorem query_failure_degrades_witness:
  "fst (get_idle_seconds_x11 (env_down ''x11'')) = 0 \<and>
   fst (get_idle_seconds_wayland (env_down ''wayland'')) = 0 \<and>
   \<not> fst (is_screen_off_x11 (env_down ''x11'')) \<and>
   \<not> fst (is_screen_off_wayland (env_down ''wayland'')) \<and>
   decision_of (fst (handle_wake [''active_threshold'' \<mapsto> JInt 0] (env_down ''wayland''))) \<noteq> Wake \<and>
   decision_of (fst (handle_wake [''active_threshold'' \<mapsto> JInt 30] (env_down ''x11''))) = Ignore \<and>
   fst (get_idle_seconds_x11 (env_x11 ''soon'' ''dark'')) = 0 \<and>
   \<not> fst (is_screen_off_x11 (env_x11 ''soon'' ''dark''))"
proof -
  have r: "subprocess_run (env_down s) argv = Inl FileNotFoundError" for s argv
    by (simp add: env_down_def)
  have h: "dict_get [''active_threshold'' \<mapsto> JInt 30] ''active_threshold'' (JInt 30) = JInt 30"
    by (simp add: dict_get_def)
  note x = query_failure_degrades [of "env_down ''x11''" FileNotFoundError "[]"
      "[''active_threshold'' \<mapsto> JInt 30]" 30]
  note w = query_failure_degrades [of "env_down ''wayland''" FileNotFoundError "[]"
      "[''active_threshold'' \<mapsto> JInt 0]" 0]
  have p1: "subprocess_run (env_x11 ''soon'' ''dark'') xprintidle = Inr ''soon''"
    by (simp add: env_x11_def)
  have p2: "py_int (int_max_str_digits (env_x11 ''soon'' ''dark'')) (py_strip ''soon'') = None"
    by (simp add: text_eval)
  have p3: "subprocess_run (env_x11 ''soon'' ''dark'') xset_q = Inr ''dark''"
    by (simp add: env_x11_def argv_defs)
  have p4: "search_monitor ''dark'' = None"
    by (simp add: text_eval)
  from query_failure_degrades [of "env_x11 ''soon'' ''dark''" FileNotFoundError "''soon''"
      Map.empty 30] p1 p2
  have q1: "fst (get_idle_seconds_x11 (env_x11 ''soon'' ''dark'')) = 0"
    by blast
  from query_failure_degrades [of "env_x11 ''soon'' ''dark''" FileNotFoundError "''dark''"
      Map.empty 30] p3 p4
  have q2: "\<not> fst (is_screen_off_x11 (env_x11 ''soon'' ''dark''))"
    by blast
  from x r h
  have "fst (get_idle_seconds_x11 (env_down ''x11'')) = 0"
    and "\<not> fst (is_screen_off_x11 (env_down ''x11''))"
    and "decision_of (fst (handle_wake [''active_threshold'' \<mapsto> JInt 30] (env_down ''x11''))) = Ignore"
    by auto
  moreover from w r
  have "fst (get_idle_seconds_wayland (env_down ''wayland'')) = 0"
    and "\<not> fst (is_screen_off_wayland (env_down ''wayland''))"
    and "decision_of (fst (handle_wake [''active_threshold'' \<mapsto> JInt 0] (env_down ''wayland''))) \<noteq> Wake"
    by blast+
  ultimately show ?thesis using q1 q2 by blast
qed

lemma strip_by_fixed:
  assumes "s \<noteq> []" "\<not> p (hd s)" "\<not> p (last s)"
  shows "strip_by p s = s"
proof -
  have a: "dropWhile p s = s"
    using assms by (cases s) simp_all
  have "rev s \<noteq> []" "\<not> p (hd (rev s))"
    using assms by (simp_all add: hd_rev)
  then have b: "dropWhile p (rev s) = rev s"
    by (cases "rev s") simp_all
  show ?thesis
    by (simp add: strip_by_def a b)
qed

lemma strip_by_ends:
  assumes "strip_by p s \<noteq> []"
  shows "\<not> p (hd (strip_by p s))" "\<not> p (last (strip_by p s))"
proof -
  let ?t = "dropWhile p s"
  let ?u = "dropWhile p (rev ?t)"
  have u: "?u \<noteq> []"
    using assms by (simp add: strip_by_def)
  then have hu: "\<not> p (hd ?u)"
    by (rule hd_dropWhile)
  have t: "?t \<noteq> []"
  proof
    assume e: "?t = []"
    have "?u = []" unfolding e by simp
    with u show False by simp
  qed
  then have ht: "\<not> p (hd ?t)"
    by (rule hd_dropWhile)
  have "rev ?t = takeWhile p (rev ?t) @ ?u"
    by simp
  then have "last (rev ?t) = last ?u"
    using u by (metis last_appendR)
  then have lu: "\<not> p (last ?u)"
    using ht t by (simp add: last_rev)
  show "\<not> p (hd (strip_by p s))"
    using lu u by (simp add: strip_by_def hd_rev)
  show "\<not> p (last (strip_by p s))"
    using hu u by (simp add: strip_by_def last_rev)
qed

lemma strip_by_idem: "strip_by p (strip_by p s) = strip_by p s"
proof (cases "strip_by p s = []")
  case True
  have "strip_by p [] = []"
    by (simp add: strip_by_def)
  with True show ?thesis by simp
next
  case False
  then show ?thesis
    using strip_by_ends [OF False] by (intro strip_by_fixed)
qed

lemma py_int_negative:
  assumes "py_int m s = Some n" "n < 0"
  shows "\<exists>r. py_strip s = CHR ''-'' # r"
  using assms
  by (auto simp: py_int_def Let_def split: list.splits option.splits if_splits)

lemma match_uint64_digits:
  "match_uint64 s = Some g \<Longrightarrow> g \<noteq> [] \<and> list_all is_decimal g"
  by (auto simp: match_uint64_def Let_def list_all_iff split: if_splits dest: set_takeWhileD)

lemma search_uint64_digits:
  "search_uint64 s = Some g \<Longrightarrow> g \<noteq> [] \<and> list_all is_decimal g"
proof (induction s)
  case Nil
  then show ?case by simp
next
  case (Cons c cs)
  then show ?case
    using match_uint64_digits [of "c # cs" g]
    by (auto split: option.splits)
qed

lemma set_strip_by: "set (strip_by p s) \<subseteq> set s"
  by (auto simp: strip_by_def dest!: set_dropWhileD)

lemma py_int_digits_nonneg:
  assumes "list_all is_decimal g" "py_int m g = Some n"
  shows "0 \<le> n"
proof (rule ccontr)
  assume "\<not> 0 \<le> n"
  then have "n < 0" by simp
  then obtain r where "py_strip g = CHR ''-'' # r"
    using py_int_negative [OF assms(2)] by blast
  then have "CHR ''-'' \<in> set (py_strip g)"
    by simp
  then have "CHR ''-'' \<in> set g"
    using set_strip_by [of is_space g] by (auto simp: py_strip_def)
  then have "is_decimal CHR ''-''"
    using assms(1) by (simp add: list_all_iff)
  then show False
    by (simp add: is_decimal_def)
qed

lemma get_idle_seconds_wayland_nonneg: "0 \<le> fst (get_idle_seconds_wayland env)"
proof -
  have "0 \<le> n div 1000"
    if "search_uint64 out = Some g" "py_int (int_max_str_digits env) g = Some n" for out g n
  proof -
    have "list_all is_decimal g"
      using search_uint64_digits [OF that(1)] by simp
    then have "0 \<le> n"
      using that(2) by (rule py_int_digits_nonneg)
    then show ?thesis
      by (simp add: pos_imp_zdiv_nonneg_iff)
  qed
  then show ?thesis
    by (simp add: get_idle_seconds_wayland_def split: sum.split option.split)
qed

lemma get_idle_seconds_x11_neg_iff:
  "fst (get_idle_seconds_x11 env) < 0 \<longleftrightarrow>
     (\<exists>out n. subprocess_run env xprintidle = Inr out \<and>
        py_int (int_max_str_digits env) (py_strip out) = Some n \<and> n < 0)"
  by (auto simp: get_idle_seconds_x11_def pos_imp_zdiv_neg_iff split: sum.splits option.splits)

text \<open>
  C8, as amended. The Wayland idle query is never negative. The X11 idle query is
  negative exactly when \<open>xprintidle\<close> printed what \<open>int()\<close> reads as a negative
  number, which takes a minus sign at the start of the trimmed output; in every other
  case, failures and unparseable output included, it is not negative.
\<close>

theorem idle_seconds_sign:
  "0 \<le> fst (get_idle_seconds_wayland env) \<and>
   (fst (get_idle_seconds_x11 env) < 0 \<longleftrightarrow>
      (\<exists>out n. subprocess_run env xprintidle = Inr out \<and>
         py_int (int_max_str_digits env) (py_strip out) = Some n \<and> n < 0)) \<and>
   (fst (get_idle_seconds_x11 env) < 0 \<longrightarrow>
      (\<exists>out r. subprocess_run env xprintidle = Inr out \<and> py_strip out = CHR ''-'' # r))"
proof -
  have "\<exists>out r. subprocess_run env xprintidle = Inr out \<and> py_strip out = CHR ''-'' # r"
    if "fst (get_idle_seconds_x11 env) < 0"
  proof -
    from that obtain out n where o: "subprocess_run env xprintidle = Inr out"
      "py_int (int_max_str_digits env) (py_strip out) = Some n" "n < 0"
      unfolding get_idle_seconds_x11_neg_iff by blast
    from py_int_negative [OF o(2,3)] obtain r where "py_strip (py_strip out) = CHR ''-'' # r"
      by blast
    then have "py_strip out = CHR ''-'' # r"
      by (simp add: py_strip_def strip_by_idem)
    with o(1) show ?thesis by blast
  qed
  then show ?thesis
    using get_idle_seconds_wayland_nonneg [of env] get_idle_seconds_x11_neg_iff [of env]
    by blast
qed

text \<open>
  C8 as stated fails in the X11 variant: for the output \<open>-5000\<close> the query returns
  \<open>int("-5000") // 1000\<close>, which is \<open>-5\<close>.
\<close>

theorem idle_seconds_negative_counterexample:
  "\<not> 0 \<le> fst (get_idle_seconds_x11 (env_x11 ''-5000'' ''Monitor is On''))"
  by (simp add: x11_eval text_eval)

theorem idle_seconds_sign_witness:
  "fst (get_idle_seconds_x11 (env_x11 ''-5000'' ''Monitor is On'')) = - 5 \<and>
   (\<exists>out r. subprocess_run (env_x11 ''-5000'' ''Monitor is On'') xprintidle = Inr out \<and>
      py_strip out = CHR ''-'' # r)"
proof -
  have v: "fst (get_idle_seconds_x11 (env_x11 ''-5000'' ''Monitor is On'')) = - 5"
    by (simp add: x11_eval text_eval)
  then have "fst (get_idle_seconds_x11 (env_x11 ''-5000'' ''Monitor is On'')) < 0"
    by simp
  with idle_seconds_sign [of "env_x11 ''-5000'' ''Monitor is On''"] v
  show ?thesis by blast
qed

subsection \<open>The Wayland variant on replies of \<open>dbus-send\<close>\<close>

lemmas wayland_eval =
  env_wayland_def get_idle_seconds_def get_idle_seconds_wayland_def is_screen_off_def
  is_screen_off_wayland_def reset_idle_timer_def reset_idle_timer_wayland_def wake_screen_def
  wake_screen_wayland_def match_uint64_def

lemma wayland_examples:
  "get_idle_seconds (env_wayland ''reply_serial=2\<newline>   uint64 45123\<newline>'' ''   boolean true\<newline>'') =
     (45, [Run dbus_get_idletime])"
  "is_screen_off (env_wayland ''   uint64 45123'' ''reply_serial=2\<newline>   boolean true\<newline>'') =
     (True, [Run dbus_get_active])"
  "is_screen_off (env_wayland ''   uint64 45123'' ''   boolean false'') =
     (False, [Run dbus_get_active])"
  "get_idle_seconds (env_wayland ''Error org.freedesktop.DBus.Error.ServiceUnknown'' []) =
     (0, [Run dbus_get_idletime])"
  by (simp_all add: wayland_eval text_eval argv_defs)

lemma handle_wake_wayland_example:
  "handle_wake Map.empty (env_wayland ''   uint64 45123'' ''   boolean true'') =
     ([Run dbus_get_idletime, Run dbus_get_active, Info (ScreenOffWaking 45),
       Run dbus_set_active_false], None)"
  by (simp add: handle_wake_def dict_get_def wayland_eval text_eval argv_defs)

section \<open>The state token of the X11 power query\<close>

lemma token_after_literal:
  "(take (length lit) s = lit \<and> takeWhile P (drop (length lit) s) = g \<and> g \<noteq> []) \<longleftrightarrow>
   (\<exists>post. s = lit @ g @ post \<and> g \<noteq> [] \<and> list_all P g \<and> (post = [] \<or> \<not> P (hd post)))"
proof
  assume l: "take (length lit) s = lit \<and> takeWhile P (drop (length lit) s) = g \<and> g \<noteq> []"
  let ?r = "drop (length lit) s"
  have "s = take (length lit) s @ ?r"
    by simp
  also have "?r = takeWhile P ?r @ dropWhile P ?r"
    by simp
  finally have s: "s = lit @ g @ dropWhile P ?r"
    using l by simp
  have g: "list_all P g"
    using l by (auto simp: list_all_iff dest: set_takeWhileD)
  have "dropWhile P ?r = [] \<or> \<not> P (hd (dropWhile P ?r))"
    using hd_dropWhile [of P ?r] by blast
  with s g l show "\<exists>post. s = lit @ g @ post \<and> g \<noteq> [] \<and> list_all P g \<and>
      (post = [] \<or> \<not> P (hd post))"
    by blast
next
  assume "\<exists>post. s = lit @ g @ post \<and> g \<noteq> [] \<and> list_all P g \<and> (post = [] \<or> \<not> P (hd post))"
  then obtain post where p: "s = lit @ g @ post" "g \<noteq> []" "list_all P g"
      "post = [] \<or> \<not> P (hd post)"
    by blast
  have "takeWhile P post = []"
    using p(4) by (cases post) auto
  then have "takeWhile P (g @ post) = g"
    using p(3) by (simp add: list_all_iff takeWhile_append2)
  then show "take (length lit) s = lit \<and> takeWhile P (drop (length lit) s) = g \<and> g \<noteq> []"
    using p(1,2) by simp
qed

lemma match_monitor_Some_iff:
  "match_monitor s = Some g \<longleftrightarrow>
   (\<exists>post. s = ''Monitor is '' @ g @ post \<and> g \<noteq> [] \<and> list_all is_word g \<and>
      (post = [] \<or> \<not> is_word (hd post)))"
proof -
  have len: "11 = length ''Monitor is ''"
    by simp
  have "match_monitor s = Some g \<longleftrightarrow>
        (take 11 s = ''Monitor is '' \<and> takeWhile is_word (drop 11 s) = g \<and> g \<noteq> [])"
    by (auto simp: match_monitor_def)
  also have "\<dots> \<longleftrightarrow>
        (take (length ''Monitor is '') s = ''Monitor is '' \<and>
         takeWhile is_word (drop (length ''Monitor is '') s) = g \<and> g \<noteq> [])"
    by (simp only: len [symmetric])
  finally show ?thesis
    by (simp only: token_after_literal)
qed

lemma match_monitor_None_iff:
  "match_monitor s = None \<longleftrightarrow>
   \<not> (\<exists>c post. s = ''Monitor is '' @ c # post \<and> is_word c)"
proof
  assume n: "match_monitor s = None"
  show "\<not> (\<exists>c post. s = ''Monitor is '' @ c # post \<and> is_word c)"
  proof
    assume "\<exists>c post. s = ''Monitor is '' @ c # post \<and> is_word c"
    then obtain c post where "s = ''Monitor is '' @ c # post" "is_word c"
      by blast
    then have "match_monitor s \<noteq> None"
      by (simp add: match_monitor_def)
    with n show False by simp
  qed
next
  assume a: "\<not> (\<exists>c post. s = ''Monitor is '' @ c # post \<and> is_word c)"
  show "match_monitor s = None"
  proof (rule ccontr)
    assume "match_monitor s \<noteq> None"
    then obtain g where "match_monitor s = Some g"
      by blast
    then obtain post where p: "s = ''Monitor is '' @ g @ post" "g \<noteq> []" "list_all is_word g"
      unfolding match_monitor_Some_iff by blast
    then obtain c g' where "g = c # g'" "is_word c"
      by (cases g) auto
    with p(1) a show False
      by auto
  qed
qed

lemma search_monitor_position:
  "search_monitor s = Some g \<longleftrightarrow>
   (\<exists>i. match_monitor (drop i s) = Some g \<and> (\<forall>j<i. match_monitor (drop j s) = None))"
proof (induction s)
  case Nil
  then show ?case
    by (simp add: match_monitor_def)
next
  case (Cons c cs)
  show ?case
  proof (cases "match_monitor (c # cs)")
    case (Some g')
    have "(\<exists>i. match_monitor (drop i (c # cs)) = Some g \<and>
             (\<forall>j<i. match_monitor (drop j (c # cs)) = None)) \<longleftrightarrow> g' = g"
    proof
      assume "\<exists>i. match_monitor (drop i (c # cs)) = Some g \<and>
             (\<forall>j<i. match_monitor (drop j (c # cs)) = None)"
      then obtain i where i: "match_monitor (drop i (c # cs)) = Some g"
        "\<forall>j<i. match_monitor (drop j (c # cs)) = None"
        by blast
      have "i = 0"
      proof (rule ccontr)
        assume "i \<noteq> 0"
        then have "match_monitor (drop 0 (c # cs)) = None"
          using i(2) by blast
        with Some show False by simp
      qed
      with i(1) Some show "g' = g" by simp
    next
      assume "g' = g"
      with Some have "match_monitor (drop 0 (c # cs)) = Some g \<and>
             (\<forall>j<0. match_monitor (drop j (c # cs)) = None)"
        by simp
      then show "\<exists>i. match_monitor (drop i (c # cs)) = Some g \<and>
             (\<forall>j<i. match_monitor (drop j (c # cs)) = None)"
        by blast
    qed
    with Some show ?thesis by simp
  next
    case None
    have "(\<exists>i. match_monitor (drop i (c # cs)) = Some g \<and>
             (\<forall>j<i. match_monitor (drop j (c # cs)) = None)) \<longleftrightarrow>
          (\<exists>i. match_monitor (drop i cs) = Some g \<and>
             (\<forall>j<i. match_monitor (drop j cs) = None))"
    proof
      assume "\<exists>i. match_monitor (drop i (c # cs)) = Some g \<and>
             (\<forall>j<i. match_monitor (drop j (c # cs)) = None)"
      then obtain i where i: "match_monitor (drop i (c # cs)) = Some g"
        "\<forall>j<i. match_monitor (drop j (c # cs)) = None"
        by blast
      from i(1) None obtain k where k: "i = Suc k"
        by (cases i) auto
      have "match_monitor (drop k cs) = Some g"
        using i(1) k by simp
      moreover have "match_monitor (drop j cs) = None" if "j < k" for j
        using i(2) k that by (auto dest: spec [of _ "Suc j"])
      ultimately show "\<exists>i. match_monitor (drop i cs) = Some g \<and>
             (\<forall>j<i. match_monitor (drop j cs) = None)"
        by blast
    next
      assume "\<exists>i. match_monitor (drop i cs) = Some g \<and>
             (\<forall>j<i. match_monitor (drop j cs) = None)"
      then obtain k where k: "match_monitor (drop k cs) = Some g"
        "\<forall>j<k. match_monitor (drop j cs) = None"
        by blast
      have "match_monitor (drop (Suc k) (c # cs)) = Some g"
        using k(1) by simp
      moreover have "match_monitor (drop j (c # cs)) = None" if "j < Suc k" for j
        using that k(2) None by (cases j) auto
      ultimately show "\<exists>i. match_monitor (drop i (c # cs)) = Some g \<and>
             (\<forall>j<i. match_monitor (drop j (c # cs)) = None)"
        by blast
    qed
    with None Cons.IH show ?thesis by simp
  qed
qed

lemma search_monitor_token_gen:
  assumes L: "lit = ''Monitor is ''"
  shows "search_monitor out = Some g \<longleftrightarrow>
     (\<exists>pre post.
        out = pre @ lit @ g @ post \<and> g \<noteq> [] \<and> list_all is_word g \<and>
        (post = [] \<or> \<not> is_word (hd post)) \<and>
        (\<forall>pre' c post'.
           out = pre' @ lit @ c # post' \<and> is_word c \<longrightarrow>
           length pre \<le> length pre'))"
proof -
  have S: "match_monitor s = Some g \<longleftrightarrow>
     (\<exists>post. s = lit @ g @ post \<and> g \<noteq> [] \<and> list_all is_word g \<and>
        (post = [] \<or> \<not> is_word (hd post)))" for s g
    unfolding L by (rule match_monitor_Some_iff)
  have N: "match_monitor s = None \<longleftrightarrow> \<not> (\<exists>c post. s = lit @ c # post \<and> is_word c)" for s
    unfolding L by (rule match_monitor_None_iff)
  show ?thesis
  proof
    assume "search_monitor out = Some g"
    then obtain i where i: "match_monitor (drop i out) = Some g"
      "\<forall>j<i. match_monitor (drop j out) = None"
      unfolding search_monitor_position by blast
    from i(1) obtain post where p: "drop i out = lit @ g @ post" "g \<noteq> []"
      "list_all is_word g" "post = [] \<or> \<not> is_word (hd post)"
      unfolding S by blast
    have "drop i out \<noteq> []"
      using p(1,2) by simp
    then have il: "i < length out"
      by simp
    have "out = take i out @ drop i out"
      by simp
    then have o: "out = take i out @ lit @ g @ post"
      unfolding p(1) .
    have left: "length (take i out) \<le> length pre'"
      if d: "out = pre' @ lit @ c # post'" and w: "is_word c" for pre' c post'
    proof -
      have e: "drop (length pre') out = lit @ c # post'"
        unfolding d by simp
      have "\<exists>c post. drop (length pre') out = lit @ c # post \<and> is_word c"
        by (intro exI conjI) (rule e, rule w)
      then have "match_monitor (drop (length pre') out) \<noteq> None"
        unfolding N by simp
      then have "\<not> length pre' < i"
        using i(2) [rule_format, of "length pre'"] by (intro notI) simp
      then show ?thesis
        using il by simp
    qed
    show "\<exists>pre post.
        out = pre @ lit @ g @ post \<and> g \<noteq> [] \<and> list_all is_word g \<and>
        (post = [] \<or> \<not> is_word (hd post)) \<and>
        (\<forall>pre' c post'.
           out = pre' @ lit @ c # post' \<and> is_word c \<longrightarrow>
           length pre \<le> length pre')"
    proof (intro exI conjI allI impI)
      show "out = take i out @ lit @ g @ post" by (rule o)
      show "g \<noteq> []" by (rule p(2))
      show "list_all is_word g" by (rule p(3))
      show "post = [] \<or> \<not> is_word (hd post)" by (rule p(4))
      show "length (take i out) \<le> length pre'"
        if "out = pre' @ lit @ c # post' \<and> is_word c" for pre' c post'
        by (rule left [OF conjunct1 [OF that] conjunct2 [OF that]])
    qed
  next
    assume "\<exists>pre post.
        out = pre @ lit @ g @ post \<and> g \<noteq> [] \<and> list_all is_word g \<and>
        (post = [] \<or> \<not> is_word (hd post)) \<and>
        (\<forall>pre' c post'.
           out = pre' @ lit @ c # post' \<and> is_word c \<longrightarrow>
           length pre \<le> length pre')"
    then obtain pre post where p: "out = pre @ lit @ g @ post" "g \<noteq> []"
      "list_all is_word g" "post = [] \<or> \<not> is_word (hd post)"
      and left: "\<forall>pre' c post'. out = pre' @ lit @ c # post' \<and> is_word c \<longrightarrow>
                   length pre \<le> length pre'"
      by blast
    have "drop (length pre) out = lit @ g @ post"
      unfolding p(1) by simp
    then have "\<exists>post. drop (length pre) out = lit @ g @ post \<and> g \<noteq> [] \<and>
        list_all is_word g \<and> (post = [] \<or> \<not> is_word (hd post))"
      using p(2,3,4) by (intro exI conjI)
    then have m: "match_monitor (drop (length pre) out) = Some g"
      unfolding S .
    have n: "match_monitor (drop j out) = None" if j: "j < length pre" for j
    proof (rule ccontr)
      assume "match_monitor (drop j out) \<noteq> None"
      then obtain c post' where c: "drop j out = lit @ c # post'" "is_word c"
        unfolding N by blast
      have "out = take j out @ drop j out"
        by simp
      then have e: "out = take j out @ lit @ c # post'"
        unfolding c(1) .
      have "length pre \<le> length (take j out)"
        by (rule left [rule_format, OF conjI [OF e c(2)]])
      with j show False
        by simp
    qed
    have "\<exists>i. match_monitor (drop i out) = Some g \<and>
             (\<forall>j<i. match_monitor (drop j out) = None)"
      using m n by (intro exI conjI allI impI)
    then show "search_monitor out = Some g"
      unfolding search_monitor_position .
  qed
qed

lemma search_monitor_token: "search_monitor out = Some g \<longleftrightarrow> monitor_token out g"
  unfolding monitor_token_def by (rule search_monitor_token_gen [OF refl])

text \<open>
  C9. The X11 power query runs \<open>xset q\<close> and reports the screen off exactly when the
  output holds a state token, the word after the first \<open>Monitor is\<close> that a word
  follows, and that token is not \<open>On\<close>. With no such token, or when the command
  fails, it reports \<open>False\<close>.
\<close>

theorem screen_off_x11_token:
  "(fst (is_screen_off_x11 env) \<longleftrightarrow>
      (\<exists>out g. subprocess_run env xset_q = Inr out \<and> monitor_token out g \<and> g \<noteq> ''On'')) \<and>
   snd (is_screen_off_x11 env) = [Run xset_q]"
proof -
  have "fst (is_screen_off_x11 env) \<longleftrightarrow>
      (\<exists>out g. subprocess_run env xset_q = Inr out \<and> search_monitor out = Some g \<and> g \<noteq> ''On'')"
    by (cases "subprocess_run env xset_q")
      (auto simp: is_screen_off_x11_def split: option.splits)
  then show ?thesis
    by (simp add: search_monitor_token is_screen_off_x11_def)
qed

theorem screen_off_x11_token_witness:
  "fst (is_screen_off_x11 (env_x11 ''0'' ''  Monitor is Off'')) \<and>
   (\<exists>g. monitor_token ''  Monitor is Off'' g \<and> g \<noteq> ''On'') \<and>
   \<not> fst (is_screen_off_x11 (env_x11 ''0'' ''  Monitor is On'')) \<and>
   \<not> (\<exists>g. monitor_token ''  Monitor is On'' g \<and> g \<noteq> ''On'') \<and>
   fst (is_screen_off_x11 (env_x11 ''0'' ''  Monitor is in Standby'')) \<and>
   \<not> fst (is_screen_off_x11 (env_x11 ''0'' ''DPMS is Disabled''))"
proof -
  have r: "subprocess_run (env_x11 i p) xset_q = Inr p" for i p
    by (simp add: env_x11_def argv_defs)
  have off: "fst (is_screen_off_x11 (env_x11 ''0'' ''  Monitor is Off''))"
    by (simp add: x11_eval text_eval)
  have on: "\<not> fst (is_screen_off_x11 (env_x11 ''0'' ''  Monitor is On''))"
    by (simp add: x11_eval text_eval)
  have sb: "fst (is_screen_off_x11 (env_x11 ''0'' ''  Monitor is in Standby''))"
    by (simp add: x11_eval text_eval)
  have no: "\<not> fst (is_screen_off_x11 (env_x11 ''0'' ''DPMS is Disabled''))"
    by (simp add: x11_eval text_eval)
  note t1 = screen_off_x11_token [of "env_x11 ''0'' ''  Monitor is Off''", THEN conjunct1]
  note t2 = screen_off_x11_token [of "env_x11 ''0'' ''  Monitor is On''", THEN conjunct1]
  from iffD1 [OF t1 off] obtain out g
    where o: "subprocess_run (env_x11 ''0'' ''  Monitor is Off'') xset_q = Inr out"
      and g: "monitor_token out g" "g \<noteq> ''On''"
    by (elim exE conjE)
  have "out = ''  Monitor is Off''"
    using o unfolding r by (rule sum.inject(2) [THEN iffD1, symmetric])
  with g have a: "\<exists>g. monitor_token ''  Monitor is Off'' g \<and> g \<noteq> ''On''"
    by (intro exI [of _ g] conjI) simp_all
  have b: "\<not> (\<exists>g. monitor_token ''  Monitor is On'' g \<and> g \<noteq> ''On'')"
  proof
    assume "\<exists>g. monitor_token ''  Monitor is On'' g \<and> g \<noteq> ''On''"
    then obtain g where "monitor_token ''  Monitor is On'' g" "g \<noteq> ''On''"
      by (elim exE conjE)
    then have "\<exists>out g. subprocess_run (env_x11 ''0'' ''  Monitor is On'') xset_q = Inr out \<and>
        monitor_token out g \<and> g \<noteq> ''On''"
      using r [of "''0''" "''  Monitor is On''"] by (intro exI conjI)
    then have "fst (is_screen_off_x11 (env_x11 ''0'' ''  Monitor is On''))"
      by (rule iffD2 [OF t2])
    with on show False by (rule notE)
  qed
  show ?thesis
    by (intro conjI off a on b sb no)
qed

section \<open>Properties of the message callback\<close>

lemma unat_of_char: "unat (of_char c :: 8 word) = of_char c"
proof -
  have "(of_char c :: 8 word) = of_nat (of_char c)"
    by (simp add: of_nat_of_char)
  then have "unat (of_char c :: 8 word) = (of_char c :: nat) mod 256"
    by (simp add: unat_of_nat)
  then show ?thesis
    by simp
qed

lemma utf8_decode_replace_ascii:
  "list_all (\<lambda>b. b < 128) bs \<Longrightarrow> utf8_decode_replace bs = bs"
  by (induction bs) simp_all

lemma decode_ascii:
  assumes "list_all (\<lambda>c. (of_char c :: nat) < 128) s"
  shows "utf8_decode_replace (map unat (ascii s)) = py_str s"
proof -
  have m: "map unat (ascii s) = py_str s"
    by (simp add: ascii_def py_str_def unat_of_char)
  have "list_all (\<lambda>b. b < 128) (py_str s)"
    using assms by (simp add: py_str_def list_all_iff)
  then show ?thesis
    unfolding m by (rule utf8_decode_replace_ascii)
qed

lemma strip_by_eq_iff:
  assumes w: "w \<noteq> []" "\<not> p (hd w)" "\<not> p (last w)"
  shows "strip_by p t = w \<longleftrightarrow> (\<exists>l r. t = l @ w @ r \<and> list_all p l \<and> list_all p r)"
proof
  assume s: "strip_by p t = w"
  let ?d = "dropWhile p t"
  note s' = s [unfolded strip_by_def]
  have "rev (takeWhile p (rev ?d) @ dropWhile p (rev ?d)) = ?d"
    by (simp only: takeWhile_dropWhile_id rev_rev_ident)
  then have "rev (dropWhile p (rev ?d)) @ rev (takeWhile p (rev ?d)) = ?d"
    by (simp only: rev_append)
  then have d: "?d = w @ rev (takeWhile p (rev ?d))"
    unfolding s' by (rule sym)
  have "t = takeWhile p t @ ?d"
    by simp
  then have t: "t = takeWhile p t @ w @ rev (takeWhile p (rev ?d))"
    using d by simp
  have a: "list_all p (takeWhile p t)"
    by (auto simp: list_all_iff dest: set_takeWhileD)
  have b: "list_all p (rev (takeWhile p (rev ?d)))"
    by (auto simp: list_all_iff dest: set_takeWhileD)
  show "\<exists>l r. t = l @ w @ r \<and> list_all p l \<and> list_all p r"
    by (intro exI conjI) (rule t, rule a, rule b)
next
  assume "\<exists>l r. t = l @ w @ r \<and> list_all p l \<and> list_all p r"
  then obtain l r where t: "t = l @ w @ r" and l: "list_all p l" and r: "list_all p r"
    by (elim exE conjE)
  have "dropWhile p (w @ r) = w @ r"
    using w(1,2) by (cases w) simp_all
  moreover have "dropWhile p (l @ w @ r) = dropWhile p (w @ r)"
    by (rule dropWhile_append2) (use l in \<open>simp add: list_all_iff\<close>)
  ultimately have d: "dropWhile p t = w @ r"
    unfolding t by simp
  have "dropWhile p (rev w) = rev w"
    using w(1,3) by (cases "rev w") (simp_all add: hd_rev [symmetric])
  moreover have "dropWhile p (rev r @ rev w) = dropWhile p (rev w)"
    by (rule dropWhile_append2) (use r in \<open>simp add: list_all_iff\<close>)
  ultimately have "dropWhile p (rev r @ rev w) = rev w"
    by simp
  then show "strip_by p t = w"
    by (simp add: strip_by_def d)
qed

lemma wake_ends:
  "py_str ''wake'' \<noteq> []" "\<not> py_isspace (hd (py_str ''wake''))"
  "\<not> py_isspace (last (py_str ''wake''))"
  by (simp_all add: py_str_def py_isspace_def)

lemma handle_wake_queries_idle: "fst (handle_wake config env) \<noteq> []"
  by (simp add: handle_wake_cases snd_get_idle_seconds split: option.split bool.split)

lemma on_message_ascii:
  assumes "list_all (\<lambda>c. (of_char c :: nat) < 128) s"
  shows "on_message config env (ascii s) =
           (if strip_by py_isspace (py_str s) = py_str ''wake'' then handle_wake config env
            else ([], None))"
  by (simp only: on_message_def Let_def decode_ascii [OF assms])

lemmas payload_eval = py_str_def strip_by_def py_isspace_def

lemma on_message_examples:
  "on_message config env (ascii ''wake'') = handle_wake config env"
  "on_message config env (ascii ''wake '') = handle_wake config env"
  "on_message config env (ascii ''Wake'') = ([], None)"
  "on_message config env (ascii ''WAKE'') = ([], None)"
  "on_message config env (ascii ''wake now'') = ([], None)"
  "on_message config env [] = ([], None)"
proof -
  show "on_message config env (ascii ''wake'') = handle_wake config env"
    by (subst on_message_ascii) (simp_all add: payload_eval)
  show "on_message config env (ascii ''wake '') = handle_wake config env"
    by (subst on_message_ascii) (simp_all add: payload_eval)
  show "on_message config env (ascii ''Wake'') = ([], None)"
    by (subst on_message_ascii) (simp_all add: payload_eval)
  show "on_message config env (ascii ''WAKE'') = ([], None)"
    by (subst on_message_ascii) (simp_all add: payload_eval)
  show "on_message config env (ascii ''wake now'') = ([], None)"
    by (subst on_message_ascii) (simp_all add: payload_eval)
  show "on_message config env [] = ([], None)"
    by (simp add: on_message_def payload_eval)
qed

text \<open>
  Beyond ASCII: an em space (U+2003, three bytes) and a line feed around \<open>wake\<close> are
  trimmed; an invalid byte becomes U+FFFD, which is not white space, at either end.
\<close>

lemma on_message_unicode_examples:
  "on_message config env [0xE2, 0x80, 0x83, 0x77, 0x61, 0x6B, 0x65, 0x0A] = handle_wake config env"
  "on_message config env [0xFF, 0x77, 0x61, 0x6B, 0x65] = ([], None)"
  "on_message config env [0x77, 0x61, 0x6B, 0x65, 0xC2] = ([], None)"
  by (simp_all add: on_message_def payload_eval is_continuation_def)

lemma on_message_trigger:
  "on_message config env bs =
     (if (\<exists>l r. utf8_decode_replace (map unat bs) = l @ py_str ''wake'' @ r \<and>
                list_all py_isspace l \<and> list_all py_isspace r)
      then handle_wake config env else ([], None))"
  by (simp only: on_message_def Let_def strip_by_eq_iff [OF wake_ends])

text \<open>
  C5, as amended. A message is acted on exactly when its payload, decoded as UTF-8 with
  replacement, is the text \<open>wake\<close> between two runs of white space: then
  \<open>on_message\<close> does what \<open>handle_wake\<close> does, which always begins with the idle query;
  otherwise it does nothing. The payloads \<open>Wake\<close>, \<open>WAKE\<close>, \<open>wake now\<close> and the empty
  payload do nothing. The payload \<open>wake\<close> followed by a space is trimmed to \<open>wake\<close>
  and is acted on.
\<close>

theorem payload_strictness:
  "on_message config env bs =
     (if (\<exists>l r. utf8_decode_replace (map unat bs) = l @ py_str ''wake'' @ r \<and>
                list_all py_isspace l \<and> list_all py_isspace r)
      then handle_wake config env else ([], None)) \<and>
   fst (handle_wake config env) \<noteq> [] \<and>
   on_message config env (ascii ''wake'') = handle_wake config env \<and>
   on_message config env (ascii ''wake '') = handle_wake config env \<and>
   on_message config env (ascii ''Wake'') = ([], None) \<and>
   on_message config env (ascii ''WAKE'') = ([], None) \<and>
   on_message config env (ascii ''wake now'') = ([], None) \<and>
   on_message config env [] = ([], None)"
  by (intro conjI on_message_trigger handle_wake_queries_idle on_message_examples)

lemma handle_wake_idle_screen_off:
  "handle_wake [''active_threshold'' \<mapsto> JInt 30] (env_x11 ''45000'' ''Monitor is Off'') =
     ([Run xprintidle, Run xset_q, Info (ScreenOffWaking 45), Run xset_dpms_force_on,
       Run xset_s_reset], None)"
proof -
  have h1: "dict_get [''active_threshold'' \<mapsto> JInt 30] ''active_threshold'' (JInt 30) = JInt 30"
    by (simp add: dict_get_def)
  have h2: "fst (get_idle_seconds (env_x11 ''45000'' ''Monitor is Off'')) = 45"
    by (simp add: x11_eval text_eval)
  have h3: "fst (is_screen_off (env_x11 ''45000'' ''Monitor is Off''))"
    by (simp add: x11_eval text_eval)
  have h4: "wake_screen (env_x11 ''45000'' ''Monitor is Off'') =
              [Run xset_dpms_force_on, Run xset_s_reset]"
    by (simp add: x11_eval)
  have t: "snd (get_idle_seconds (env_x11 ''45000'' ''Monitor is Off'')) = [Run xprintidle]"
    "snd (is_screen_off (env_x11 ''45000'' ''Monitor is Off'')) = [Run xset_q]"
    by (simp_all add: snd_get_idle_seconds snd_is_screen_off env_x11_def)
  show ?thesis
    by (simp add: handle_wake_int_threshold [OF h1] h2 h3 h4 t)
qed

text \<open>
  C5 as stated fails at the payload \<open>wake\<close> followed by a space: the handler trims it
  and acts. In an X11 session idle for 45 s with the monitor off it runs both queries
  and wakes the display.
\<close>

theorem payload_trailing_space_counterexample:
  "on_message [''active_threshold'' \<mapsto> JInt 30] (env_x11 ''45000'' ''Monitor is Off'')
     (ascii ''wake '') =
     ([Run xprintidle, Run xset_q, Info (ScreenOffWaking 45), Run xset_dpms_force_on,
       Run xset_s_reset], None)"
  by (simp only: on_message_examples(2) handle_wake_idle_screen_off)

theorem payload_strictness_witness:
  "on_message [''active_threshold'' \<mapsto> JInt 30] (env_x11 ''45000'' ''Monitor is Off'')
     (ascii ''Wake'') = ([], None) \<and>
   on_message [''active_threshold'' \<mapsto> JInt 30] (env_x11 ''45000'' ''Monitor is Off'')
     (ascii ''wake'') =
     ([Run xprintidle, Run xset_q, Info (ScreenOffWaking 45), Run xset_dpms_force_on,
       Run xset_s_reset], None)"
proof -
  note t = payload_strictness [of "[''active_threshold'' \<mapsto> JInt 30]"
      "env_x11 ''45000'' ''Monitor is Off''" "[]"]
  from t have a: "on_message [''active_threshold'' \<mapsto> JInt 30]
      (env_x11 ''45000'' ''Monitor is Off'') (ascii ''Wake'') = ([], None)"
    by (elim conjE)
  from t have b: "on_message [''active_threshold'' \<mapsto> JInt 30]
      (env_x11 ''45000'' ''Monitor is Off'') (ascii ''wake'') =
      handle_wake [''active_threshold'' \<mapsto> JInt 30] (env_x11 ''45000'' ''Monitor is Off'')"
    by (elim conjE)
  show ?thesis
    by (intro conjI) (rule a, simp only: b handle_wake_idle_screen_off)
qed

end
